theory Spec2Isabelle
  imports Main
begin

section \<open>Python strings\<close>

text \<open>
  A Python \<open>str\<close> is modelled by a \<open>string\<close>, one \<open>char\<close> per character, so the model
  covers the strings whose characters have code points below 256. The string methods the
  handlers call are written out below.
\<close>

definition startswith :: "string \<Rightarrow> string \<Rightarrow> bool" where
  "startswith s p = (take (length p) s = p)"

definition endswith :: "string \<Rightarrow> string \<Rightarrow> bool" where
  "endswith s p = (length p \<le> length s \<and> drop (length s - length p) s = p)"

text \<open>The characters \<open>str.strip()\<close> removes: those for which \<open>str.isspace()\<close> holds.\<close>

definition isspace :: "char \<Rightarrow> bool" where
  "isspace c = (c \<in> {CHR 0x09, CHR 0x0A, CHR 0x0B, CHR 0x0C, CHR 0x0D,
                      CHR 0x1C, CHR 0x1D, CHR 0x1E, CHR 0x1F, CHR 0x20, CHR 0x85, CHR 0xA0})"

definition strip :: "string \<Rightarrow> string" where
  "strip s = rev (dropWhile isspace (rev (dropWhile isspace s)))"

text \<open>\<open>s.split(sep)\<close> for a one-character separator: never an empty list.\<close>

fun split :: "char \<Rightarrow> string \<Rightarrow> string list" where
  "split sep [] = [[]]"
| "split sep (c # cs) =
     (if c = sep then [] # split sep cs
      else (case split sep cs of
              [] \<Rightarrow> [[c]]
            | w # ws \<Rightarrow> (c # w) # ws))"

text \<open>\<open>s.split(sep, n)\<close>: at most \<open>n\<close> cuts, the rest of the text in the last part.\<close>

fun split_max :: "char \<Rightarrow> nat \<Rightarrow> string \<Rightarrow> string list" where
  "split_max sep 0 s = [s]"
| "split_max sep (Suc n) [] = [[]]"
| "split_max sep (Suc n) (c # cs) =
     (if c = sep then [] # split_max sep n cs
      else (case split_max sep (Suc n) cs of
              [] \<Rightarrow> [[c]]
            | w # ws \<Rightarrow> (c # w) # ws))"

text \<open>The slice \<open>s[i:j]\<close> for \<open>0 \<le> i \<le> j\<close>.\<close>

definition slice :: "nat \<Rightarrow> nat \<Rightarrow> 'a list \<Rightarrow> 'a list" where
  "slice i j s = take (j - i) (drop i s)"

section \<open>The log parser (lambda/log-parser/handler.py)\<close>

subsection \<open>Library functions the parser calls\<close>

text \<open>
  \<open>urllib.parse.unquote\<close>, \<open>urllib.parse.urlparse\<close> and \<open>str.lower\<close> belong to the
  interpreter, not to the repository. They are parameters of the model: every theorem
  below holds for whatever they compute. \<open>netloc ref\<close> is \<open>urlparse(ref).netloc\<close>, and
  \<open>None\<close> when \<open>urlparse\<close> raises (it raises \<open>ValueError\<close> on a malformed bracketed
  host).
\<close>

record pylib =
  unquote :: "string \<Rightarrow> string"
  netloc :: "string \<Rightarrow> string option"
  lower :: "string \<Rightarrow> string"

subsection \<open>The normalized event\<close>

text \<open>
  The dict the parser returns has ten fixed keys; \<open>referrer\<close>, \<open>referrer_domain\<close> and
  \<open>user_agent\<close> may hold \<open>None\<close>, the others always hold a string.
\<close>

record event =
  domain :: string
  timestamp :: string
  date :: string
  path :: string
  status :: string
  referrer :: "string option"
  referrer_domain :: "string option"
  user_agent :: "string option"
  client_ip :: string
  request_id :: string

text \<open>
  Lines 93 to 109 of the parser: the referrer domain of a request for \<open>host\<close> whose
  decoded referer is \<open>referrer\<close>. The \<open>None\<close> branch of \<open>netloc\<close> is the
  \<open>except Exception: pass\<close> of the source.
\<close>

definition parse_referrer_domain :: "pylib \<Rightarrow> string \<Rightarrow> string option \<Rightarrow> string option" where
  "parse_referrer_domain lib host ref =
     (case ref of
        None \<Rightarrow> None
      | Some r \<Rightarrow>
          if r \<noteq> [] \<and> r \<noteq> ''-'' then
            (case netloc lib r of
               None \<Rightarrow> None
             | Some nl \<Rightarrow>
                 (let raw_ref_domain = lower lib nl;
                      raw_ref_domain = (if startswith raw_ref_domain ''www.''
                                        then drop 4 raw_ref_domain else raw_ref_domain);
                      normalized_host = lower lib host;
                      normalized_host = (if startswith normalized_host ''www.''
                                         then drop 4 normalized_host else normalized_host)
                  in if raw_ref_domain \<noteq> [] \<and> raw_ref_domain \<noteq> normalized_host
                     then Some raw_ref_domain else None))
          else None)"

text \<open>
  \<open>_parse_cloudfront_log_line\<close>. \<open>None\<close> is the source's \<open>return None\<close>. Every index read
  is below 20, so no read is out of range once the length test has passed, and the outer
  \<open>except\<close> of the source is never entered.
\<close>

definition parse_cloudfront_log_line :: "pylib \<Rightarrow> string \<Rightarrow> event option" where
  "parse_cloudfront_log_line lib line =
     (if startswith line ''#'' then None
      else
        (let fields = split (CHR 0x09) (strip line) in
         if length fields < 20 then None
         else
           (let date_str = fields ! 0;
                time_str = fields ! 1;
                client_ip = fields ! 4;
                host = fields ! 6;
                path = unquote lib (fields ! 7);
                status = fields ! 8;
                referrer = (if fields ! 9 \<noteq> ''-'' then Some (unquote lib (fields ! 9)) else None);
                user_agent = (if fields ! 10 \<noteq> ''-'' then Some (unquote lib (fields ! 10)) else None);
                request_id = fields ! 14;
                referrer_domain = parse_referrer_domain lib host referrer;
                timestamp = date_str @ ''T'' @ time_str @ ''Z''
            in Some \<lparr> domain = host, timestamp = timestamp, date = date_str, path = path,
                      status = status, referrer = referrer, referrer_domain = referrer_domain,
                      user_agent = user_agent, client_ip = client_ip,
                      request_id = request_id \<rparr>)))"

text \<open>The fields the parser reads: the tab-separated parts of the stripped line.\<close>

definition fields_of :: "string \<Rightarrow> string list" where
  "fields_of line = split (CHR 0x09) (strip line)"

text \<open>
  The normalisation the specification names: lowercase, then drop one leading \<open>www.\<close>.
  It is the specification's function, stated apart from the parser so that the two can
  be compared.
\<close>

definition normalize :: "pylib \<Rightarrow> string \<Rightarrow> string" where
  "normalize lib x = (let l = lower lib x in if startswith l ''www.'' then drop 4 l else l)"

subsection \<open>A small library for evaluation\<close>

text \<open>
  For evaluating the parser on concrete lines: ASCII lowercasing, percent-decoding left
  out (the sample lines carry no \<open>%\<close>), and the network location of a reference of the
  shape \<open>scheme://netloc/rest\<close>, which is where \<open>urlparse\<close> finds it.
\<close>

definition ascii_lower :: "string \<Rightarrow> string" where
  "ascii_lower s =
     map (\<lambda>c. case map_of (zip ''ABCDEFGHIJKLMNOPQRSTUVWXYZ'' ''abcdefghijklmnopqrstuvwxyz'') c of
                None \<Rightarrow> c
              | Some l \<Rightarrow> l) s"

fun after_slashes :: "string \<Rightarrow> string option" where
  "after_slashes (a # b # cs) =
     (if a = CHR ''/'' \<and> b = CHR ''/'' then Some cs else after_slashes (b # cs))"
| "after_slashes cs = None"

definition simple_netloc :: "string \<Rightarrow> string option" where
  "simple_netloc ref =
     (case after_slashes ref of
        None \<Rightarrow> Some []
      | Some rest \<Rightarrow> Some (takeWhile (\<lambda>c. c \<notin> {CHR ''/'', CHR ''?'', CHR ''#''}) rest))"

definition simple_lib :: pylib where
  "simple_lib = \<lparr> unquote = (\<lambda>s. s), netloc = simple_netloc, lower = ascii_lower \<rparr>"

text \<open>Join fields with tabs, to write sample lines.\<close>

fun tabbed :: "string list \<Rightarrow> string" where
  "tabbed [] = []"
| "tabbed [f] = f"
| "tabbed (f # g # fs) = f @ [CHR 0x09] @ tabbed (g # fs)"

definition sample_fields :: "string \<Rightarrow> string \<Rightarrow> string \<Rightarrow> string \<Rightarrow> string \<Rightarrow> string \<Rightarrow> string list" where
  "sample_fields d t host ref ua rid =
     [d, t, ''SEA19'', ''1234'', ''1.2.3.4'', ''GET'', host, ''/'', ''200'', ref, ua,
      ''-'', ''-'', ''Hit'', rid, host, ''https'', ''567'', ''0.001'', ''-'', ''TLSv1.3'']"


subsection \<open>The event store\<close>

text \<open>
  The table is the external key/range store. A row is a map from attribute names to
  values: strings, numbers and string sets are the attribute types the handlers write.
  The table maps a \<open>(PK, SK)\<close> key to its row; putting an item replaces the row under the
  item's key (the store contract of the specification). Every item the writers build
  carries both key attributes as strings; an item without them is refused by the store
  and leaves the table as it was.
\<close>

datatype attr = Str string | Num int | StrSet "string set"

type_synonym row = "string \<rightharpoonup> attr"

type_synonym table = "string \<times> string \<rightharpoonup> row"

definition key_of :: "row \<Rightarrow> (string \<times> string) option" where
  "key_of item =
     (case item ''PK'' of
        Some (Str pk) \<Rightarrow> (case item ''SK'' of Some (Str sk) \<Rightarrow> Some (pk, sk) | _ \<Rightarrow> None)
      | _ \<Rightarrow> None)"

definition put_item :: "table \<Rightarrow> row \<Rightarrow> table" where
  "put_item T item = (case key_of item of None \<Rightarrow> T | Some k \<Rightarrow> T(k \<mapsto> item))"

text \<open>
  The invocation's clock: \<open>clock n\<close> is the epoch second returned by the \<open>n\<close>-th call of
  \<open>datetime.now\<close>. The state threaded through the writers is the table together with
  the number of clock readings taken so far.
\<close>

type_synonym clock = "nat \<Rightarrow> int"

record store =
  tbl :: table
  reads :: nat

definition TTL_DAYS :: int where
  "TTL_DAYS = 90"

text \<open>\<open>int((now + timedelta(days=TTL_DAYS)).timestamp())\<close> for the reading \<open>now\<close>.\<close>

definition ttl_from :: "int \<Rightarrow> int" where
  "ttl_from now = now + TTL_DAYS * 86400"

subsection \<open>The event writer\<close>

text \<open>
  The item built in the body of the loop of \<open>_batch_write_to_dynamodb\<close>: first the dict
  literal of lines 186 to 198, then the four optional groups of lines 201 to 211, in the
  order of the source. \<open>item.get(k)\<close> is true for a string that is present and not empty.
\<close>

definition base_item :: "int \<Rightarrow> event \<Rightarrow> row" where
  "base_item now item =
     (let pk = domain item @ ''#'' @ date item;
          sk = timestamp item @ ''#'' @ request_id item;
          ttl = ttl_from now
      in [''PK'' \<mapsto> Str pk,
          ''SK'' \<mapsto> Str sk,
          ''domain'' \<mapsto> Str (domain item),
          ''timestamp'' \<mapsto> Str (timestamp item),
          ''path'' \<mapsto> Str (path item),
          ''status'' \<mapsto> Str (status item),
          ''request_id'' \<mapsto> Str (request_id item),
          ''ttl'' \<mapsto> Num ttl,
          ''GSI1PK'' \<mapsto> Str (domain item @ ''#'' @ path item),
          ''GSI1SK'' \<mapsto> Str (timestamp item)])"

definition add_referrer :: "event \<Rightarrow> row \<Rightarrow> row" where
  "add_referrer item db_item =
     (case referrer item of
        Some r \<Rightarrow> if r \<noteq> [] then db_item(''referrer'' \<mapsto> Str r) else db_item
      | None \<Rightarrow> db_item)"

definition add_referrer_domain :: "event \<Rightarrow> row \<Rightarrow> row" where
  "add_referrer_domain item db_item =
     (case referrer_domain item of
        Some rd \<Rightarrow>
          if rd \<noteq> []
          then db_item(''referrer_domain'' \<mapsto> Str rd,
                       ''GSI2PK'' \<mapsto> Str (domain item @ ''#'' @ rd),
                       ''GSI2SK'' \<mapsto> Str (timestamp item))
          else db_item
      | None \<Rightarrow> db_item)"

definition add_user_agent :: "event \<Rightarrow> row \<Rightarrow> row" where
  "add_user_agent item db_item =
     (case user_agent item of
        Some ua \<Rightarrow> if ua \<noteq> [] then db_item(''user_agent'' \<mapsto> Str ua) else db_item
      | None \<Rightarrow> db_item)"

definition add_client_ip :: "event \<Rightarrow> row \<Rightarrow> row" where
  "add_client_ip item db_item =
     (if client_ip item \<noteq> [] then db_item(''client_ip'' \<mapsto> Str (client_ip item)) else db_item)"

definition db_item :: "int \<Rightarrow> event \<Rightarrow> row" where
  "db_item now item =
     add_client_ip item (add_user_agent item (add_referrer_domain item (add_referrer item
       (base_item now item))))"

text \<open>One turn of the inner loop: read the clock, build the item, put it, count it.\<close>

definition write_item :: "clock \<Rightarrow> event \<Rightarrow> store \<times> nat \<Rightarrow> store \<times> nat" where
  "write_item clock item acc =
     (case acc of (st, written) \<Rightarrow>
        (\<lparr> tbl = put_item (tbl st) (db_item (clock (reads st)) item), reads = Suc (reads st) \<rparr>,
         written + 1))"

text \<open>The slices \<open>items[i : i + 25]\<close> for \<open>i\<close> in \<open>range(0, len(items), 25)\<close>.\<close>

function batches :: "'a list \<Rightarrow> 'a list list" where
  "batches xs = (if xs = [] then [] else take 25 xs # batches (drop 25 xs))"
  by pat_completeness auto
termination
  by (relation "measure length") auto

text \<open>\<open>_batch_write_to_dynamodb\<close>: the new state and the number of items written.\<close>

definition batch_write_to_dynamodb :: "clock \<Rightarrow> event list \<Rightarrow> store \<Rightarrow> store \<times> nat" where
  "batch_write_to_dynamodb clock items st =
     (if items = [] then (st, 0)
      else fold (\<lambda>batch acc. fold (write_item clock) batch acc) (batches items) (st, 0))"

text \<open>A row without its \<open>ttl\<close> attribute, and a table with every row so reduced.\<close>

definition without_ttl :: "row \<Rightarrow> row" where
  "without_ttl r = r(''ttl'' := None)"

definition rows_without_ttl :: "table \<Rightarrow> table" where
  "rows_without_ttl T = (\<lambda>k. map_option without_ttl (T k))"

definition sample_event :: event where
  "sample_event = \<lparr> domain = ''myfantasy.ai'', timestamp = ''2024-01-15T12:00:00Z'',
                     date = ''2024-01-15'', path = ''/'', status = ''200'',
                     referrer = Some ''https://google.com/'', referrer_domain = Some ''google.com'',
                     user_agent = Some ''Mozilla/5.0'', client_ip = ''1.2.3.4'',
                     request_id = ''r1'' \<rparr>"

definition empty_store :: store where
  "empty_store = \<lparr> tbl = Map.empty, reads = 0 \<rparr>"

subsection \<open>The rollup writer\<close>

text \<open>
  Phase 1 keeps four \<open>defaultdict\<close>s. A dict is an association list in insertion order:
  \<open>d[k] = f(d[k])\<close> changes the entry of \<open>k\<close> in place, or appends one built from the
  default value when \<open>k\<close> is new.
\<close>

fun dict_update :: "string \<Rightarrow> 'v \<Rightarrow> ('v \<Rightarrow> 'v) \<Rightarrow> (string \<times> 'v) list \<Rightarrow> (string \<times> 'v) list" where
  "dict_update k d f [] = [(k, f d)]"
| "dict_update k d f ((k', v) # kvs) =
     (if k' = k then (k', f v) # kvs else (k', v) # dict_update k d f kvs)"

record rollups =
  daily_stats :: "(string \<times> int \<times> string set) list"
  page_counts :: "(string \<times> int) list"
  referrer_counts :: "(string \<times> int) list"
  hourly_counts :: "(string \<times> int) list"

definition no_rollups :: rollups where
  "no_rollups = \<lparr> daily_stats = [], page_counts = [], referrer_counts = [], hourly_counts = [] \<rparr>"

text \<open>Line 246: \<open>item["timestamp"][11:13] if len(item["timestamp"]) >= 13 else "00"\<close>.\<close>

definition hour_of :: "string \<Rightarrow> string" where
  "hour_of ts = (if 13 \<le> length ts then slice 11 13 ts else ''00'')"

text \<open>The body of the aggregation loop (lines 239 to 265) for one item.\<close>

definition aggregate :: "event \<Rightarrow> rollups \<Rightarrow> rollups" where
  "aggregate item acc =
     (let hour = hour_of (timestamp item);
          daily_key = domain item @ ''#'' @ date item;
          daily = dict_update daily_key (0, {})
                    (\<lambda>stats. (fst stats + 1,
                               if client_ip item \<noteq> [] then insert (client_ip item) (snd stats)
                               else snd stats))
                    (daily_stats acc);
          page_key = domain item @ ''#'' @ date item @ ''#'' @ path item;
          pages = dict_update page_key 0 (\<lambda>c. c + 1) (page_counts acc);
          refs = (case referrer_domain item of
                    Some rd \<Rightarrow>
                      if rd \<noteq> []
                      then dict_update (domain item @ ''#'' @ date item @ ''#'' @ rd) 0
                             (\<lambda>c. c + 1) (referrer_counts acc)
                      else referrer_counts acc
                  | None \<Rightarrow> referrer_counts acc);
          hour_key = domain item @ ''#'' @ date item @ ''#'' @ hour;
          hours = dict_update hour_key 0 (\<lambda>c. c + 1) (hourly_counts acc)
      in \<lparr> daily_stats = daily, page_counts = pages, referrer_counts = refs,
           hourly_counts = hours \<rparr>)"

text \<open>
  Phase 2 talks to the store through \<open>update_item\<close>. The three update expressions the
  handler sends, each together with \<open>SET #ttl = :ttl\<close>:
  \<open>ADD requests :r\<close>, \<open>ADD requests :r, unique_ips :ips\<close> and \<open>ADD #count :c\<close>.
  \<open>ADD\<close> of a number needs the attribute to be missing or a number, \<open>ADD\<close> of a set needs
  it to be missing or a set; otherwise the store refuses the whole update (\<open>None\<close>). On a
  missing attribute \<open>ADD\<close> stores the operand, on a number it adds, on a set it unites.
  An update of a key that has no row yet works on a fresh row holding the key
  attributes.
\<close>

datatype update_expr = AddRequests int | AddRequestsIps int "string set" | AddCount int

definition num_ok :: "attr option \<Rightarrow> bool" where
  "num_ok a = (case a of None \<Rightarrow> True | Some (Num m) \<Rightarrow> True | _ \<Rightarrow> False)"

definition set_ok :: "attr option \<Rightarrow> bool" where
  "set_ok a = (case a of None \<Rightarrow> True | Some (StrSet t) \<Rightarrow> True | _ \<Rightarrow> False)"

definition add_num :: "attr option \<Rightarrow> int \<Rightarrow> attr" where
  "add_num a n = (case a of Some (Num m) \<Rightarrow> Num (m + n) | _ \<Rightarrow> Num n)"

definition add_set :: "attr option \<Rightarrow> string set \<Rightarrow> attr" where
  "add_set a s = (case a of Some (StrSet t) \<Rightarrow> StrSet (t \<union> s) | _ \<Rightarrow> StrSet s)"

definition fresh_row :: "string \<times> string \<Rightarrow> row" where
  "fresh_row key = [''PK'' \<mapsto> Str (fst key), ''SK'' \<mapsto> Str (snd key)]"

definition apply_update :: "int \<Rightarrow> update_expr \<Rightarrow> row \<Rightarrow> row option" where
  "apply_update ttl ex r =
     (case ex of
        AddRequests n \<Rightarrow>
          if num_ok (r ''requests'')
          then Some (r(''ttl'' \<mapsto> Num ttl, ''requests'' \<mapsto> add_num (r ''requests'') n))
          else None
      | AddRequestsIps n ips \<Rightarrow>
          if num_ok (r ''requests'') \<and> set_ok (r ''unique_ips'')
          then Some (r(''ttl'' \<mapsto> Num ttl, ''requests'' \<mapsto> add_num (r ''requests'') n,
                       ''unique_ips'' \<mapsto> add_set (r ''unique_ips'') ips))
          else None
      | AddCount n \<Rightarrow>
          if num_ok (r ''count'')
          then Some (r(''ttl'' \<mapsto> Num ttl, ''count'' \<mapsto> add_num (r ''count'') n))
          else None)"

definition row_at :: "table \<Rightarrow> string \<times> string \<Rightarrow> row" where
  "row_at T key = (case T key of None \<Rightarrow> fresh_row key | Some r \<Rightarrow> r)"

definition update_item :: "table \<Rightarrow> string \<times> string \<Rightarrow> int \<Rightarrow> update_expr \<Rightarrow> table option" where
  "update_item T key ttl ex =
     (case apply_update ttl ex (row_at T key) of
        None \<Rightarrow> None
      | Some r' \<Rightarrow> Some (T(key \<mapsto> r')))"

text \<open>
  \<open>try: table.update_item(...) except Exception: logger.warning(...)\<close>: a refused update
  is logged and skipped.
\<close>

definition try_update_item :: "table \<Rightarrow> string \<times> string \<Rightarrow> int \<Rightarrow> update_expr \<Rightarrow> table" where
  "try_update_item T key ttl ex = (case update_item T key ttl ex of None \<Rightarrow> T | Some T' \<Rightarrow> T')"

text \<open>
  The body of the loop over \<open>daily_stats\<close> (lines 274 to 291). The key was built with a
  \<open>#\<close>, so \<open>key.split("#", 1)\<close> has two parts and the unpacking cannot fail; the last
  case is never taken.
\<close>

definition update_daily :: "int \<Rightarrow> string \<times> int \<times> string set \<Rightarrow> table \<Rightarrow> table" where
  "update_daily ttl entry T =
     (case entry of (key, requests, ips) \<Rightarrow>
        (case split_max (CHR ''#'') 1 key of
           [domain_part, date_part] \<Rightarrow>
             try_update_item T (''ROLLUP#'' @ domain_part, ''STATS#'' @ date_part) ttl
               (if ips \<noteq> {} then AddRequestsIps requests ips else AddRequests requests)
         | _ \<Rightarrow> T))"

text \<open>
  The bodies of the loops over \<open>page_counts\<close>, \<open>referrer_counts\<close> and \<open>hourly_counts\<close>
  (lines 294 to 330) differ in the prefix of the sort key only: \<open>PAGE#\<close>, \<open>REF#\<close>,
  \<open>HOUR#\<close>. Here \<open>key.split("#", 2)\<close> has three parts.
\<close>

definition update_count :: "string \<Rightarrow> int \<Rightarrow> string \<times> int \<Rightarrow> table \<Rightarrow> table" where
  "update_count prefix ttl entry T =
     (case entry of (key, count) \<Rightarrow>
        (case split_max (CHR ''#'') 2 key of
           [domain_part, date_part, rest] \<Rightarrow>
             try_update_item T (''ROLLUP#'' @ domain_part, prefix @ date_part @ ''#'' @ rest) ttl
               (AddCount count)
         | _ \<Rightarrow> T))"

text \<open>\<open>_update_rollups\<close>: nothing for an empty list, else phase 1, one clock reading, phase 2.\<close>

definition update_rollups :: "clock \<Rightarrow> event list \<Rightarrow> store \<Rightarrow> store" where
  "update_rollups clock items st =
     (if items = [] then st
      else
        (let acc = fold aggregate items no_rollups;
             ttl = ttl_from (clock (reads st));
             T = fold (update_daily ttl) (daily_stats acc) (tbl st);
             T = fold (update_count ''PAGE#'' ttl) (page_counts acc) T;
             T = fold (update_count ''REF#'' ttl) (referrer_counts acc) T;
             T = fold (update_count ''HOUR#'' ttl) (hourly_counts acc) T
         in \<lparr> tbl = T, reads = Suc (reads st) \<rparr>))"

text \<open>
  Two notions for the proofs about phase 2. The row a tried update leaves behind: the
  updated row when the store accepts, the row as it was when it refuses. And the
  transformers of the table that phase 2 is made of, as functions of the \<open>ttl\<close> they
  stamp: a tried update of one key, or nothing at all.
\<close>

definition updated_row :: "int \<Rightarrow> update_expr \<Rightarrow> row \<Rightarrow> row" where
  "updated_row ttl ex r = (case apply_update ttl ex r of None \<Rightarrow> r | Some r' \<Rightarrow> r')"

definition additive :: "(int \<Rightarrow> table \<Rightarrow> table) \<Rightarrow> bool" where
  "additive g = ((\<exists>key ex. g = (\<lambda>ttl T. try_update_item T key ttl ex)) \<or> g = (\<lambda>ttl T. T))"

text \<open>The updates phase 2 issues for a list of items, in the order of the four loops.\<close>

definition rollup_steps :: "event list \<Rightarrow> (int \<Rightarrow> table \<Rightarrow> table) list" where
  "rollup_steps items =
     (let acc = fold aggregate items no_rollups
      in map (\<lambda>entry ttl. update_daily ttl entry) (daily_stats acc)
         @ map (\<lambda>entry ttl. update_count ''PAGE#'' ttl entry) (page_counts acc)
         @ map (\<lambda>entry ttl. update_count ''REF#'' ttl entry) (referrer_counts acc)
         @ map (\<lambda>entry ttl. update_count ''HOUR#'' ttl entry) (hourly_counts acc))"

definition sample_event2 :: event where
  "sample_event2 = \<lparr> domain = ''myfantasy.ai'', timestamp = ''2024-01-15T13:30:00Z'',
                      date = ''2024-01-15'', path = ''/about'', status = ''200'',
                      referrer = None, referrer_domain = None,
                      user_agent = Some ''Mozilla/5.0'', client_ip = ''5.6.7.8'',
                      request_id = ''r2'' \<rparr>"

subsection \<open>The ingestion controller\<close>

text \<open>The exceptions the two handlers can meet.\<close>

datatype exn = ReaderError | TypeError | AttributeError | KeyError | ValueError | IndexError

text \<open>
  \<open>EXCLUDED_EXTENSIONS\<close> (the elements of the set) and \<open>EXCLUDED_PATHS\<close>, as read from
  the environment when the module is loaded.
\<close>

record lp_config =
  EXCLUDED_EXTENSIONS :: "string list"
  EXCLUDED_PATHS :: "string list"

definition should_exclude_path :: "pylib \<Rightarrow> lp_config \<Rightarrow> string \<Rightarrow> bool" where
  "should_exclude_path lib cfg p =
     (let path_lower = lower lib p in
      if EXCLUDED_EXTENSIONS cfg \<noteq> []
         \<and> list_ex (\<lambda>ext. endswith path_lower ext) (EXCLUDED_EXTENSIONS cfg) then True
      else if EXCLUDED_PATHS cfg \<noteq> []
         \<and> list_ex (\<lambda>prefix. startswith path_lower (lower lib prefix)) (EXCLUDED_PATHS cfg) then True
      else False)"

definition extract_domain_from_s3_key :: "string \<Rightarrow> string option" where
  "extract_domain_from_s3_key k =
     (let parts = split (CHR ''/'') k in if 0 < length parts then Some (parts ! 0) else None)"

text \<open>
  A record of the trigger event names a bucket and a key. The reader (\<open>get_object\<close>,
  gunzip, UTF-8 decoding) is the function \<open>s3\<close>: the text of the object, or \<open>None\<close> when
  any of the three raises.
\<close>

record s3_record =
  bucket_name :: string
  object_key :: string

type_synonym s3 = "string \<Rightarrow> string \<Rightarrow> string option"

text \<open>
  The body of the loop over the lines of one object (lines 375 to 384); the state is
  \<open>items\<close>, \<open>skipped\<close> and \<open>total_processed\<close>. A parsed dict is never empty, so
  \<open>if parsed\<close> is the test for \<open>None\<close>.
\<close>

definition scan_line ::
  "pylib \<Rightarrow> lp_config \<Rightarrow> string \<Rightarrow> string \<Rightarrow> event list \<times> nat \<times> nat \<Rightarrow> event list \<times> nat \<times> nat" where
  "scan_line lib cfg actual_domain line acc =
     (case acc of (items, skipped, total_processed) \<Rightarrow>
        (case parse_cloudfront_log_line lib line of
           None \<Rightarrow> (items, skipped, total_processed)
         | Some parsed \<Rightarrow>
             if should_exclude_path lib cfg (path parsed)
             then (items, skipped + 1, total_processed)
             else (items @ [parsed\<lparr>domain := actual_domain\<rparr>], skipped, total_processed + 1)))"

text \<open>The state of the handler's loop over the records.\<close>

record run =
  total_processed :: nat
  total_written :: nat
  store_of :: store

text \<open>
  The body of the loop over the records (lines 354 to 398). The object is read before
  the domain is derived, so a failing read raises even for a key without a domain.
\<close>

definition process_record ::
  "pylib \<Rightarrow> lp_config \<Rightarrow> s3 \<Rightarrow> clock \<Rightarrow> s3_record \<Rightarrow> run \<Rightarrow> exn + run" where
  "process_record lib cfg s3 clock rec r =
     (case s3 (bucket_name rec) (object_key rec) of
        None \<Rightarrow> Inl ReaderError
      | Some content \<Rightarrow>
          (case extract_domain_from_s3_key (object_key rec) of
             None \<Rightarrow> Inr r
           | Some actual_domain \<Rightarrow>
               if actual_domain = [] then Inr r
               else
                 (case fold (scan_line lib cfg actual_domain) (split (CHR 0x0A) content)
                         ([], 0, total_processed r) of
                    (items, skipped, processed_now) \<Rightarrow>
                      if items \<noteq> [] then
                        (case batch_write_to_dynamodb clock items (store_of r) of
                           (st1, written) \<Rightarrow>
                             Inr \<lparr> total_processed = processed_now,
                                   total_written = total_written r + written,
                                   store_of = update_rollups clock items st1 \<rparr>)
                      else Inr (r\<lparr> total_processed := processed_now \<rparr>))))"

fun process_records ::
  "pylib \<Rightarrow> lp_config \<Rightarrow> s3 \<Rightarrow> clock \<Rightarrow> s3_record list \<Rightarrow> run \<Rightarrow> exn + run" where
  "process_records lib cfg s3 clock [] r = Inr r"
| "process_records lib cfg s3 clock (rec # recs) r =
     (case process_record lib cfg s3 clock rec r of
        Inl e \<Rightarrow> Inl e
      | Inr r' \<Rightarrow> process_records lib cfg s3 clock recs r')"

text \<open>
  \<open>lambda_handler\<close> of the log parser. \<open>Inl e\<close> is \<open>raise e\<close>: the invocation fails. The
  success response carries the two totals.
\<close>

record lp_response =
  status_code :: int
  message :: string
  processed :: nat
  written :: nat

definition lambda_handler ::
  "pylib \<Rightarrow> lp_config \<Rightarrow> s3 \<Rightarrow> clock \<Rightarrow> s3_record list \<Rightarrow> store \<Rightarrow> exn + lp_response \<times> store" where
  "lambda_handler lib cfg s3 clock records st0 =
     (case process_records lib cfg s3 clock records
             \<lparr> total_processed = 0, total_written = 0, store_of = st0 \<rparr> of
        Inl e \<Rightarrow> Inl e
      | Inr r \<Rightarrow>
          Inr (\<lparr> status_code = 200, message = ''Success'',
                 processed = total_processed r, written = total_written r \<rparr>,
               store_of r))"

text \<open>
  The events of one record that are parsed and not excluded, for stating what the totals
  count: none when the key has no domain.
\<close>

definition kept_events :: "pylib \<Rightarrow> lp_config \<Rightarrow> string \<Rightarrow> event list" where
  "kept_events lib cfg content =
     filter (\<lambda>ev. \<not> should_exclude_path lib cfg (path ev))
       (List.map_filter (parse_cloudfront_log_line lib) (split (CHR 0x0A) content))"

definition record_events :: "pylib \<Rightarrow> lp_config \<Rightarrow> s3 \<Rightarrow> s3_record \<Rightarrow> event list" where
  "record_events lib cfg s3 rec =
     (case s3 (bucket_name rec) (object_key rec) of
        None \<Rightarrow> []
      | Some content \<Rightarrow>
          (case extract_domain_from_s3_key (object_key rec) of
             None \<Rightarrow> []
           | Some actual_domain \<Rightarrow>
               if actual_domain = [] then []
               else map (\<lambda>ev. ev\<lparr>domain := actual_domain\<rparr>) (kept_events lib cfg content)))"

definition sample_cfg :: lp_config where
  "sample_cfg = \<lparr> EXCLUDED_EXTENSIONS = [''.css'', ''.js''], EXCLUDED_PATHS = [] \<rparr>"

definition sample_record :: s3_record where
  "sample_record = \<lparr> bucket_name = ''logs'', object_key = ''myfantasy.ai/2024/01/15/E1.gz'' \<rparr>"

definition sample_s3 :: s3 where
  "sample_s3 b k =
     (if b = ''logs'' \<and> k = ''myfantasy.ai/2024/01/15/E1.gz''
      then Some (''#Version: 1.0'' @ [CHR 0x0A]
                 @ tabbed (sample_fields ''2024-01-15'' ''12:00:00'' ''d111.cloudfront.net''
                             ''-'' ''-'' ''r1'') @ [CHR 0x0A])
      else None)"

section \<open>The journey tracker (lambda/journey-tracker/handler.py)\<close>

subsection \<open>Python values\<close>

text \<open>
  The values \<open>json.loads\<close> returns: \<open>None\<close>, booleans, integers, strings, lists and
  dicts. A dict is its list of items, one per key. JSON numbers with a fraction are left
  out of the model.
\<close>

datatype pyval =
    PyNone
  | PyBool bool
  | PyInt int
  | PyStr string
  | PyList "pyval list"
  | PyDict "(string \<times> pyval) list"







text \<open>
  \<open>v[:10]\<close>: a string and a list can be sliced; the other values raise \<open>TypeError\<close>
  (a dict does so because a slice is not hashable, as in CPython up to 3.11).
\<close>

definition slice10 :: "pyval \<Rightarrow> exn + pyval" where
  "slice10 v =
     (case v of
        PyStr s \<Rightarrow> Inr (PyStr (take 10 s))
      | PyList xs \<Rightarrow> Inr (PyList (take 10 xs))
      | _ \<Rightarrow> Inl TypeError)"

subsection \<open>Library, clock and configuration\<close>





subsection \<open>Responses\<close>




subsection \<open>Validation\<close>





subsection \<open>Building the item\<close>

type_synonym item = "string \<rightharpoonup> pyval"







subsection \<open>Writing events\<close>








subsection \<open>The handler\<close>





subsection \<open>What a batch writes\<close>



subsection \<open>A small library and a sample batch for evaluation\<close>










section \<open>Properties of the log parser\<close>

subsection \<open>Strings\<close>

lemma split_nonempty: "split sep s \<noteq> []"
  by (induction s) (auto split: list.splits)

lemma normalize_empty: "lower lib [] = [] \<Longrightarrow> normalize lib [] = []"
  by (simp add: normalize_def startswith_def)

subsection \<open>The log line parser\<close>

lemma parse_some_iff:
  "(\<exists>ev. parse_cloudfront_log_line lib line = Some ev) \<longleftrightarrow>
     \<not> startswith line ''#'' \<and> 20 \<le> length (fields_of line)"
  by (auto simp: parse_cloudfront_log_line_def fields_of_def Let_def)

lemma parse_fields:
  assumes "parse_cloudfront_log_line lib line = Some ev"
  shows "domain ev = fields_of line ! 6"
    and "date ev = fields_of line ! 0"
    and "timestamp ev = fields_of line ! 0 @ ''T'' @ fields_of line ! 1 @ ''Z''"
    and "path ev = unquote lib (fields_of line ! 7)"
    and "client_ip ev = fields_of line ! 4"
    and "request_id ev = fields_of line ! 14"
    and "referrer ev = (if fields_of line ! 9 \<noteq> ''-'' then Some (unquote lib (fields_of line ! 9)) else None)"
    and "user_agent ev = (if fields_of line ! 10 \<noteq> ''-'' then Some (unquote lib (fields_of line ! 10)) else None)"
    and "referrer_domain ev = parse_referrer_domain lib (domain ev) (referrer ev)"
  using assms
  by (auto simp: parse_cloudfront_log_line_def fields_of_def Let_def split: if_splits)

lemma parse_referrer_domain_normalize:
  assumes "ref \<noteq> []" and "ref \<noteq> ''-''" and "netloc lib ref = Some r"
  shows "parse_referrer_domain lib host (Some ref) =
           (if normalize lib r \<noteq> [] \<and> normalize lib r \<noteq> normalize lib host
            then Some (normalize lib r) else None)"
  using assms by (simp add: parse_referrer_domain_def normalize_def Let_def)

lemma parse_referrer_domain_skipped:
  "ref = None \<or> ref = Some [] \<or> ref = Some ''-'' \<Longrightarrow> parse_referrer_domain lib host ref = None"
  by (auto simp: parse_referrer_domain_def)

text \<open>
  Claim C1, as amended. Let a line be parsed into an event, and let \<open>r\<close> be the network
  location of its decoded referer field. Then \<open>referrer_domain\<close> is absent if and only if
  \<open>normalize r\<close> equals \<open>normalize\<close> of the host field or \<open>normalize r\<close> is empty; and when
  it is present it equals \<open>normalize r\<close>. The condition is on the normalized location:
  a location that is not empty but normalizes to the empty string (\<open>www.\<close>) is dropped
  too. The two library facts assumed are those of the interpreter: lowercasing the empty
  string gives the empty string, and the texts the parser does not hand to \<open>urlparse\<close>
  (a referer field \<open>-\<close>, or one that decodes to the empty string or to \<open>-\<close>) have an
  empty network location.
\<close>

theorem referrer_domain_policy:
  assumes parsed: "parse_cloudfront_log_line lib line = Some ev"
    and r: "netloc lib (unquote lib (fields_of line ! 9)) = Some r"
    and lower_empty: "lower lib [] = []"
    and no_url: "fields_of line ! 9 = ''-'' \<or> unquote lib (fields_of line ! 9) = []
                   \<or> unquote lib (fields_of line ! 9) = ''-'' \<Longrightarrow> r = []"
  shows "(referrer_domain ev = None \<longleftrightarrow>
            normalize lib r = normalize lib (fields_of line ! 6) \<or> normalize lib r = [])
       \<and> (referrer_domain ev \<noteq> None \<longrightarrow> referrer_domain ev = Some (normalize lib r))"
proof (cases "fields_of line ! 9 = ''-'' \<or> unquote lib (fields_of line ! 9) = []
                \<or> unquote lib (fields_of line ! 9) = ''-''")
  case True
  then have "referrer ev = None \<or> referrer ev = Some [] \<or> referrer ev = Some ''-''"
    using parse_fields(7)[OF parsed] by auto
  then have "referrer_domain ev = None"
    using parse_fields(9)[OF parsed] parse_referrer_domain_skipped by simp
  moreover have "normalize lib r = []"
    using no_url[OF True] normalize_empty[OF lower_empty] by simp
  ultimately show ?thesis by simp
next
  case False
  then have ref: "referrer ev = Some (unquote lib (fields_of line ! 9))"
    using parse_fields(7)[OF parsed] by simp
  have "referrer_domain ev =
          (if normalize lib r \<noteq> [] \<and> normalize lib r \<noteq> normalize lib (domain ev)
           then Some (normalize lib r) else None)"
    using parse_fields(9)[OF parsed] ref False r
    by (simp add: parse_referrer_domain_normalize)
  then show ?thesis
    using parse_fields(1)[OF parsed] by auto
qed

lemmas sample_simps =
  parse_cloudfront_log_line_def parse_referrer_domain_def fields_of_def sample_fields_def
  startswith_def strip_def isspace_def simple_lib_def simple_netloc_def ascii_lower_def
  normalize_def

theorem referrer_domain_policy_witness:
  "parse_cloudfront_log_line simple_lib
     (tabbed (sample_fields ''2024-01-15'' ''12:00:00'' ''myfantasy.ai''
        ''https://WWW.google.com/search'' ''Mozilla/5.0'' ''r1''))
     = Some \<lparr> domain = ''myfantasy.ai'', timestamp = ''2024-01-15T12:00:00Z'',
              date = ''2024-01-15'', path = ''/'', status = ''200'',
              referrer = Some ''https://WWW.google.com/search'',
              referrer_domain = Some ''google.com'', user_agent = Some ''Mozilla/5.0'',
              client_ip = ''1.2.3.4'', request_id = ''r1'' \<rparr>
   \<and> netloc simple_lib ''https://WWW.google.com/search'' = Some ''WWW.google.com''
   \<and> normalize simple_lib ''WWW.google.com'' = ''google.com''
   \<and> normalize simple_lib ''myfantasy.ai'' = ''myfantasy.ai''"
proof -
  let ?line = "tabbed (sample_fields ''2024-01-15'' ''12:00:00'' ''myfantasy.ai''
        ''https://WWW.google.com/search'' ''Mozilla/5.0'' ''r1'')"
  let ?ev = "\<lparr> domain = ''myfantasy.ai'', timestamp = ''2024-01-15T12:00:00Z'',
              date = ''2024-01-15'', path = ''/'', status = ''200'',
              referrer = Some ''https://WWW.google.com/search'',
              referrer_domain = Some ''google.com'', user_agent = Some ''Mozilla/5.0'',
              client_ip = ''1.2.3.4'', request_id = ''r1'' \<rparr>"
  have p: "parse_cloudfront_log_line simple_lib ?line = Some ?ev"
    by (simp add: sample_simps)
  have f9: "fields_of ?line ! 9 = ''https://WWW.google.com/search''"
    by (simp add: sample_simps)
  have n: "netloc simple_lib (unquote simple_lib (fields_of ?line ! 9)) = Some ''WWW.google.com''"
    unfolding f9 by (simp add: sample_simps)
  have l: "lower simple_lib [] = []"
    by (simp add: sample_simps)
  have u: "fields_of ?line ! 9 = ''-'' \<or> unquote simple_lib (fields_of ?line ! 9) = []
             \<or> unquote simple_lib (fields_of ?line ! 9) = ''-'' \<Longrightarrow> ''WWW.google.com'' = []"
    unfolding f9 by (simp add: sample_simps)
  have "referrer_domain ?ev \<noteq> None \<longrightarrow> referrer_domain ?ev = Some (normalize simple_lib ''WWW.google.com'')"
    using referrer_domain_policy[OF p n l u] by blast
  then have "normalize simple_lib ''WWW.google.com'' = ''google.com''" by simp
  moreover have "netloc simple_lib ''https://WWW.google.com/search'' = Some ''WWW.google.com''"
    by (simp add: sample_simps)
  moreover have "normalize simple_lib ''myfantasy.ai'' = ''myfantasy.ai''"
    by (simp add: sample_simps)
  ultimately show ?thesis using p by simp
qed

theorem referrer_domain_empty_netloc_counterexample:
  "map_option referrer_domain
     (parse_cloudfront_log_line simple_lib
        (tabbed (sample_fields ''2024-01-15'' ''12:00:00'' ''example.com''
           ''http://www./'' ''Mozilla/5.0'' ''r1''))) = Some None
   \<and> netloc simple_lib ''http://www./'' = Some ''www.''
   \<and> ''www.'' \<noteq> []
   \<and> normalize simple_lib ''www.'' \<noteq> normalize simple_lib ''example.com''"
  by (simp add: sample_simps)

text \<open>
  Claim C2, as amended. For a line that is not a comment and has at least 20 fields, the
  parser returns an event; a \<open>-\<close> in the referer slot (field 9) leaves \<open>referrer\<close> and
  \<open>referrer_domain\<close> absent, and a \<open>-\<close> in the user-agent slot (field 10) leaves
  \<open>user_agent\<close> absent. The request_id slot (field 14) is copied as it stands, a \<open>-\<close>
  included.
\<close>

theorem dash_slots:
  assumes "\<not> startswith line ''#''" and "20 \<le> length (fields_of line)"
  shows "\<exists>ev. parse_cloudfront_log_line lib line = Some ev
           \<and> (fields_of line ! 9 = ''-'' \<longrightarrow> referrer ev = None \<and> referrer_domain ev = None)
           \<and> (fields_of line ! 10 = ''-'' \<longrightarrow> user_agent ev = None)
           \<and> request_id ev = fields_of line ! 14"
proof -
  obtain ev where p: "parse_cloudfront_log_line lib line = Some ev"
    using assms parse_some_iff by blast
  have "fields_of line ! 9 = ''-'' \<longrightarrow> referrer_domain ev = None"
    using parse_fields(7,9)[OF p] parse_referrer_domain_skipped by simp
  then show ?thesis
    using p parse_fields(6,7,8)[OF p] by auto
qed

theorem dash_slots_witness:
  "\<not> startswith (tabbed (sample_fields ''2024-01-15'' ''12:00:01'' ''myfantasy.ai'' ''-'' ''-'' ''r2'')) ''#''
   \<and> 20 \<le> length (fields_of (tabbed (sample_fields ''2024-01-15'' ''12:00:01'' ''myfantasy.ai'' ''-'' ''-'' ''r2'')))
   \<and> parse_cloudfront_log_line simple_lib
       (tabbed (sample_fields ''2024-01-15'' ''12:00:01'' ''myfantasy.ai'' ''-'' ''-'' ''r2''))
     = Some \<lparr> domain = ''myfantasy.ai'', timestamp = ''2024-01-15T12:00:01Z'',
              date = ''2024-01-15'', path = ''/'', status = ''200'',
              referrer = None, referrer_domain = None, user_agent = None,
              client_ip = ''1.2.3.4'', request_id = ''r2'' \<rparr>"
proof -
  let ?line = "tabbed (sample_fields ''2024-01-15'' ''12:00:01'' ''myfantasy.ai'' ''-'' ''-'' ''r2'')"
  have a: "\<not> startswith ?line ''#''" by (simp add: sample_simps)
  have b: "20 \<le> length (fields_of ?line)" by (simp add: sample_simps)
  obtain ev where "parse_cloudfront_log_line simple_lib ?line = Some ev"
      and "fields_of ?line ! 9 = ''-'' \<longrightarrow> referrer ev = None \<and> referrer_domain ev = None"
    using dash_slots[OF a b, of simple_lib] by blast
  moreover have "parse_cloudfront_log_line simple_lib ?line
     = Some \<lparr> domain = ''myfantasy.ai'', timestamp = ''2024-01-15T12:00:01Z'',
              date = ''2024-01-15'', path = ''/'', status = ''200'',
              referrer = None, referrer_domain = None, user_agent = None,
              client_ip = ''1.2.3.4'', request_id = ''r2'' \<rparr>"
    by (simp add: sample_simps)
  ultimately show ?thesis using a b by simp
qed

theorem request_id_dash_counterexample:
  "20 \<le> length (fields_of (tabbed (sample_fields ''2024-01-15'' ''12:00:01'' ''myfantasy.ai'' ''-'' ''-'' ''-'')))
   \<and> fields_of (tabbed (sample_fields ''2024-01-15'' ''12:00:01'' ''myfantasy.ai'' ''-'' ''-'' ''-'')) ! 14 = ''-''
   \<and> map_option request_id
       (parse_cloudfront_log_line simple_lib
          (tabbed (sample_fields ''2024-01-15'' ''12:00:01'' ''myfantasy.ai'' ''-'' ''-'' ''-'')))
     = Some ''-''"
  by (simp add: sample_simps)

subsection \<open>The event writer\<close>

declare batches.simps [simp del]

lemma concat_batches: "concat (batches xs) = xs"
proof (induction xs rule: batches.induct)
  case (1 xs)
  show ?case
  proof (cases "xs = []")
    case True
    then show ?thesis by (simp add: batches.simps)
  next
    case False
    then have "concat (batches xs) = take 25 xs @ concat (batches (drop 25 xs))"
      by (subst batches.simps) simp
    with 1 False show ?thesis by simp
  qed
qed

lemma fold_fold_concat: "fold (\<lambda>b acc. fold f b acc) bs acc = fold f (concat bs) acc"
  by (induction bs arbitrary: acc) simp_all

lemma batch_write_fold:
  "batch_write_to_dynamodb clock items st = fold (write_item clock) items (st, 0)"
  by (simp add: batch_write_to_dynamodb_def fold_fold_concat concat_batches)

lemma fold_write_item_count:
  "snd (fold (write_item clock) items (st, w)) = w + length items"
  by (induction items arbitrary: st w) (simp_all add: write_item_def)

lemma batch_write_count: "snd (batch_write_to_dynamodb clock items st) = length items"
  by (simp add: batch_write_fold fold_write_item_count)

lemma add_other:
  "k \<noteq> ''referrer'' \<Longrightarrow> add_referrer e m k = m k"
  "k \<noteq> ''referrer_domain'' \<Longrightarrow> k \<noteq> ''GSI2PK'' \<Longrightarrow> k \<noteq> ''GSI2SK'' \<Longrightarrow>
     add_referrer_domain e m k = m k"
  "k \<noteq> ''user_agent'' \<Longrightarrow> add_user_agent e m k = m k"
  "k \<noteq> ''client_ip'' \<Longrightarrow> add_client_ip e m k = m k"
  by (simp_all add: add_referrer_def add_referrer_domain_def add_user_agent_def add_client_ip_def
      split: option.splits)

lemma db_item_base:
  assumes "k \<noteq> ''referrer''" "k \<noteq> ''referrer_domain''" "k \<noteq> ''GSI2PK''" "k \<noteq> ''GSI2SK''"
    "k \<noteq> ''user_agent''" "k \<noteq> ''client_ip''"
  shows "db_item now e k = base_item now e k"
  using assms by (simp add: db_item_def add_other)

lemma db_item_keys:
  "db_item now e ''PK'' = Some (Str (domain e @ ''#'' @ date e))"
  "db_item now e ''SK'' = Some (Str (timestamp e @ ''#'' @ request_id e))"
  "db_item now e ''timestamp'' = Some (Str (timestamp e))"
  "db_item now e ''ttl'' = Some (Num (ttl_from now))"
  by (simp_all add: db_item_base base_item_def Let_def)










lemma split_no_sep: "sep \<notin> set s \<Longrightarrow> split sep s = [s]"
  by (induction s) auto

lemma split_at_first: "sep \<notin> set a \<Longrightarrow> split sep (a @ sep # b) = a # split sep b"
  by (induction a) auto

text \<open>
  Claim C6, as amended. Take a parsed line whose date field has exactly ten characters,
  none of them \<open>#\<close>, and let the event be written under a domain without \<open>#\<close> (the
  handler overwrites the domain with the first segment of the object key). Then the
  second \<open>#\<close>-separated part of the row's \<open>PK\<close> is the first ten characters of the row's
  \<open>timestamp\<close>. The parser does not check the date field, so the condition on it is
  needed.
\<close>

theorem pk_date_is_timestamp_prefix:
  assumes "parse_cloudfront_log_line lib line = Some ev"
    and "length (date ev) = 10"
    and "CHR ''#'' \<notin> set (date ev)"
    and "CHR ''#'' \<notin> set actual_domain"
  shows "\<exists>pk ts. db_item now (ev\<lparr>domain := actual_domain\<rparr>) ''PK'' = Some (Str pk)
           \<and> db_item now (ev\<lparr>domain := actual_domain\<rparr>) ''timestamp'' = Some (Str ts)
           \<and> 1 < length (split (CHR ''#'') pk)
           \<and> split (CHR ''#'') pk ! 1 = take 10 ts"
proof -
  have ts: "timestamp ev = date ev @ ''T'' @ fields_of line ! 1 @ ''Z''"
    using parse_fields(2,3)[OF assms(1)] by simp
  have "split (CHR ''#'') (actual_domain @ ''#'' @ date ev) = [actual_domain, date ev]"
    using assms(3,4) by (simp add: split_at_first split_no_sep)
  moreover have "take 10 (timestamp ev) = date ev"
    using assms(2) ts by simp
  ultimately show ?thesis
    by (simp add: db_item_keys)
qed

theorem pk_date_is_timestamp_prefix_witness:
  "parse_cloudfront_log_line simple_lib
     (tabbed (sample_fields ''2024-01-15'' ''12:00:00'' ''d111.cloudfront.net''
        ''-'' ''-'' ''r1'')) \<noteq> None
   \<and> db_item 0 (the (parse_cloudfront_log_line simple_lib
        (tabbed (sample_fields ''2024-01-15'' ''12:00:00'' ''d111.cloudfront.net''
           ''-'' ''-'' ''r1''))) \<lparr>domain := ''myfantasy.ai''\<rparr>) ''PK''
       = Some (Str ''myfantasy.ai#2024-01-15'')
   \<and> split (CHR ''#'') ''myfantasy.ai#2024-01-15'' ! 1 = ''2024-01-15''
   \<and> take 10 ''2024-01-15T12:00:00Z'' = ''2024-01-15''"
proof -
  let ?line = "tabbed (sample_fields ''2024-01-15'' ''12:00:00'' ''d111.cloudfront.net''
        ''-'' ''-'' ''r1'')"
  let ?ev = "\<lparr> domain = ''d111.cloudfront.net'', timestamp = ''2024-01-15T12:00:00Z'',
              date = ''2024-01-15'', path = ''/'', status = ''200'',
              referrer = None, referrer_domain = None, user_agent = None,
              client_ip = ''1.2.3.4'', request_id = ''r1'' \<rparr>"
  have p: "parse_cloudfront_log_line simple_lib ?line = Some ?ev"
    by (simp add: sample_simps)
  have l: "length (date ?ev) = 10" by simp
  have h: "CHR ''#'' \<notin> set (date ?ev)" by simp
  have d: "CHR ''#'' \<notin> set ''myfantasy.ai''" by simp
  obtain pk ts where
    pk: "db_item 0 (?ev\<lparr>domain := ''myfantasy.ai''\<rparr>) ''PK'' = Some (Str pk)"
    and ts: "db_item 0 (?ev\<lparr>domain := ''myfantasy.ai''\<rparr>) ''timestamp'' = Some (Str ts)"
    and eq: "split (CHR ''#'') pk ! 1 = take 10 ts"
    using pk_date_is_timestamp_prefix[OF p l h d, of 0] by blast
  have pk': "pk = ''myfantasy.ai#2024-01-15''"
    using pk by (simp add: db_item_keys)
  have ts': "ts = ''2024-01-15T12:00:00Z''"
    using ts by (simp add: db_item_keys)
  have "split (CHR ''#'') ''myfantasy.ai#2024-01-15'' ! 1 = ''2024-01-15''"
    using eq unfolding pk' ts' by simp
  then show ?thesis
    using p pk unfolding pk' by simp
qed

theorem pk_date_short_date_counterexample:
  "map_option (\<lambda>ev. (db_item 0 ev ''PK'', db_item 0 ev ''timestamp''))
     (parse_cloudfront_log_line simple_lib
        (tabbed (sample_fields ''2024-1-5'' ''12:00:00'' ''myfantasy.ai'' ''-'' ''-'' ''r1'')))
     = Some (Some (Str ''myfantasy.ai#2024-1-5''), Some (Str ''2024-1-5T12:00:00Z''))
   \<and> split (CHR ''#'') ''myfantasy.ai#2024-1-5'' ! 1 = ''2024-1-5''
   \<and> take 10 ''2024-1-5T12:00:00Z'' = ''2024-1-5T1''
   \<and> split (CHR ''#'') ''myfantasy.ai#2024-1-5'' ! 1 \<noteq> take 10 ''2024-1-5T12:00:00Z''"
  by (simp add: sample_simps db_item_keys)

subsection \<open>The rollup writer: rows\<close>

lemma without_ttl_eqI: "(\<And>a. a \<noteq> ''ttl'' \<Longrightarrow> r a = r' a) \<Longrightarrow> without_ttl r = without_ttl r'"
  by (auto simp: without_ttl_def fun_eq_iff)

lemma without_ttl_eqD: "without_ttl r = without_ttl r' \<Longrightarrow> a \<noteq> ''ttl'' \<Longrightarrow> r a = r' a"
  by (drule fun_cong[of _ _ a]) (simp add: without_ttl_def)

lemma apply_update_fresh: "apply_update ttl ex (fresh_row key) \<noteq> None"
  by (cases ex) (simp_all add: apply_update_def fresh_row_def num_ok_def set_ok_def)

text \<open>\<open>ADD\<close> keeps the type of what it adds to, and two \<open>ADD\<close>s commute.\<close>

lemma ok_add [simp]: "num_ok (Some (add_num x n))" "set_ok (Some (add_set y s))"
  by (simp_all add: num_ok_def set_ok_def add_num_def add_set_def split: option.splits attr.splits)

lemma add_num_commute [simp]:
  "add_num (Some (add_num x n)) m = add_num (Some (add_num x m)) n"
  by (simp add: add_num_def split: option.splits attr.splits)

lemma add_set_commute [simp]:
  "add_set (Some (add_set x s)) t = add_set (Some (add_set x t)) s"
  by (auto simp: add_set_def split: option.splits attr.splits)

lemma updated_row_attr:
  "updated_row ttl (AddRequests n) r a =
     (if num_ok (r ''requests'')
      then (if a = ''requests'' then Some (add_num (r ''requests'') n)
            else if a = ''ttl'' then Some (Num ttl) else r a)
      else r a)"
  "updated_row ttl (AddCount n) r a =
     (if num_ok (r ''count'')
      then (if a = ''count'' then Some (add_num (r ''count'') n)
            else if a = ''ttl'' then Some (Num ttl) else r a)
      else r a)"
  "updated_row ttl (AddRequestsIps n ips) r a =
     (if num_ok (r ''requests'') \<and> set_ok (r ''unique_ips'')
      then (if a = ''unique_ips'' then Some (add_set (r ''unique_ips'') ips)
            else if a = ''requests'' then Some (add_num (r ''requests'') n)
            else if a = ''ttl'' then Some (Num ttl) else r a)
      else r a)"
  by (simp_all add: updated_row_def apply_update_def)

text \<open>What the store reads of a row, and what it leaves of it, does not involve \<open>ttl\<close>.\<close>

lemma updated_row_cong:
  assumes "without_ttl r = without_ttl r'"
  shows "without_ttl (updated_row ttl ex r) = without_ttl (updated_row ttl' ex r')"
proof (rule without_ttl_eqI)
  fix a :: string
  assume a: "a \<noteq> ''ttl''"
  have eqs: "r ''requests'' = r' ''requests''" "r ''unique_ips'' = r' ''unique_ips''"
    "r ''count'' = r' ''count''" "r a = r' a"
    using without_ttl_eqD[OF assms] a by simp_all
  show "updated_row ttl ex r a = updated_row ttl' ex r' a"
    by (cases ex) (simp_all add: updated_row_attr eqs a)
qed

lemma updated_row_commute:
  "without_ttl (updated_row t2 e2 (updated_row t1 e1 r))
     = without_ttl (updated_row t1' e1 (updated_row t2' e2 r))"
proof (rule without_ttl_eqI)
  fix a :: string
  assume a: "a \<noteq> ''ttl''"
  show "updated_row t2 e2 (updated_row t1 e1 r) a = updated_row t1' e1 (updated_row t2' e2 r) a"
    by (cases e1; cases e2) (auto simp: updated_row_attr a)
qed

subsection \<open>The rollup writer: tables\<close>

lemma rows_without_ttl_upd:
  "rows_without_ttl (T(k \<mapsto> r)) = (rows_without_ttl T)(k \<mapsto> without_ttl r)"
  by (auto simp: rows_without_ttl_def fun_eq_iff)

lemma row_at_cong:
  assumes "rows_without_ttl T = rows_without_ttl T'"
  shows "without_ttl (row_at T k) = without_ttl (row_at T' k)"
proof -
  have "map_option without_ttl (T k) = map_option without_ttl (T' k)"
    using fun_cong[OF assms, of k] by (simp add: rows_without_ttl_def)
  then show ?thesis
    by (cases "T k"; cases "T' k") (simp_all add: row_at_def)
qed

lemma row_at_upd: "row_at (T(k \<mapsto> r)) k' = (if k' = k then r else row_at T k')"
  by (simp add: row_at_def)

text \<open>A tried update always leaves a row under its key: the updated one, or the old one.\<close>

lemma try_update_item_eq:
  "try_update_item T key ttl ex = T(key \<mapsto> updated_row ttl ex (row_at T key))"
proof (cases "apply_update ttl ex (row_at T key)")
  case (Some r')
  then show ?thesis
    by (simp add: try_update_item_def update_item_def updated_row_def)
next
  case None
  have "T key \<noteq> None"
  proof
    assume "T key = None"
    then have "row_at T key = fresh_row key" by (simp add: row_at_def)
    with None show False using apply_update_fresh[of ttl ex key] by simp
  qed
  then obtain r where r: "T key = Some r" by blast
  then have "T(key \<mapsto> r) = T" by (simp add: fun_upd_idem)
  with None r show ?thesis
    by (simp add: try_update_item_def update_item_def updated_row_def row_at_def)
qed

lemma try_update_item_cong:
  assumes "rows_without_ttl T = rows_without_ttl T'"
  shows "rows_without_ttl (try_update_item T key ttl ex)
           = rows_without_ttl (try_update_item T' key ttl' ex)"
  unfolding try_update_item_eq rows_without_ttl_upd
  using assms updated_row_cong[OF row_at_cong[OF assms, of key], of ttl ex ttl'] by simp

lemma try_update_item_commute:
  "rows_without_ttl (try_update_item (try_update_item T k1 t1 e1) k2 t2 e2)
     = rows_without_ttl (try_update_item (try_update_item T k2 t2' e2) k1 t1' e1)"
proof (cases "k1 = k2")
  case True
  then show ?thesis
    unfolding try_update_item_eq rows_without_ttl_upd row_at_upd
    using updated_row_commute[of t2 e2 t1 e1 "row_at T k2" t1' t2'] by simp
next
  case False
  have 1: "without_ttl (updated_row t1 e1 (row_at T k1)) = without_ttl (updated_row t1' e1 (row_at T k1))"
    by (rule updated_row_cong) simp
  have 2: "without_ttl (updated_row t2 e2 (row_at T k2)) = without_ttl (updated_row t2' e2 (row_at T k2))"
    by (rule updated_row_cong) simp
  from False have ne: "k2 \<noteq> k1" by simp
  show ?thesis
    unfolding try_update_item_eq rows_without_ttl_upd row_at_upd
    using False ne 1 2 by (simp add: fun_upd_twist)
qed

subsection \<open>The rollup writer: lists of updates\<close>

lemma additive_cong:
  assumes "additive g" and "rows_without_ttl T = rows_without_ttl T'"
  shows "rows_without_ttl (g t T) = rows_without_ttl (g t' T')"
  using assms try_update_item_cong by (auto simp: additive_def)

lemma additive_commute:
  assumes "additive g" and "additive h"
  shows "rows_without_ttl (g t (h s T)) = rows_without_ttl (h s' (g t' T))"
proof -
  consider (gh) k1 e1 k2 e2 where "g = (\<lambda>ttl T. try_update_item T k1 ttl e1)"
      "h = (\<lambda>ttl T. try_update_item T k2 ttl e2)"
    | (g) "h = (\<lambda>ttl T. T)" | (h) "g = (\<lambda>ttl T. T)"
    using assms by (auto simp: additive_def)
  then show ?thesis
  proof cases
    case gh
    then show ?thesis using try_update_item_commute[of T k2 s e2 k1 t e1 t' s'] by simp
  next
    case g
    then show ?thesis using additive_cong[OF assms(1), of T T t t'] by simp
  next
    case h
    then show ?thesis using additive_cong[OF assms(2), of T T s s'] by simp
  qed
qed

lemma fold_additive_cong:
  assumes "\<forall>g \<in> set gs. additive g" and "rows_without_ttl T = rows_without_ttl T'"
  shows "rows_without_ttl (fold (\<lambda>g. g t) gs T) = rows_without_ttl (fold (\<lambda>g. g t') gs T')"
  using assms
proof (induction gs arbitrary: T T')
  case Nil
  then show ?case by simp
next
  case (Cons g gs)
  have "rows_without_ttl (g t T) = rows_without_ttl (g t' T')"
    using Cons.prems by (simp add: additive_cong)
  then show ?case
    using Cons.IH[of "g t T" "g t' T'"] Cons.prems by simp
qed

lemma additive_past_fold:
  assumes "additive g" and "\<forall>h \<in> set hs. additive h"
  shows "rows_without_ttl (g t (fold (\<lambda>h. h s) hs T)) = rows_without_ttl (fold (\<lambda>h. h s) hs (g t T))"
  using assms(2)
proof (induction hs arbitrary: T)
  case Nil
  then show ?case by simp
next
  case (Cons h hs)
  have "rows_without_ttl (g t (fold (\<lambda>h. h s) hs (h s T)))
          = rows_without_ttl (fold (\<lambda>h. h s) hs (g t (h s T)))"
    using Cons.IH[of "h s T"] Cons.prems by simp
  also have "\<dots> = rows_without_ttl (fold (\<lambda>h. h s) hs (h s (g t T)))"
  proof (rule fold_additive_cong)
    show "\<forall>g \<in> set hs. additive g" using Cons.prems by simp
    show "rows_without_ttl (g t (h s T)) = rows_without_ttl (h s (g t T))"
      using additive_commute[OF assms(1), of h t s T s t] Cons.prems by simp
  qed
  finally show ?case by simp
qed

lemma fold_additive_commute:
  assumes "\<forall>g \<in> set gs. additive g" and "\<forall>h \<in> set hs. additive h"
    and "rows_without_ttl T = rows_without_ttl T'"
  shows "rows_without_ttl (fold (\<lambda>g. g t) gs (fold (\<lambda>h. h s) hs T))
           = rows_without_ttl (fold (\<lambda>h. h s') hs (fold (\<lambda>g. g t') gs T'))"
  using assms(1,3)
proof (induction gs arbitrary: T T')
  case Nil
  then show ?case using fold_additive_cong[OF assms(2)] by simp
next
  case (Cons g gs)
  have g: "additive g" and gs: "\<forall>g \<in> set gs. additive g"
    using Cons.prems by simp_all
  have "rows_without_ttl (fold (\<lambda>g. g t) gs (g t (fold (\<lambda>h. h s) hs T)))
          = rows_without_ttl (fold (\<lambda>g. g t) gs (fold (\<lambda>h. h s) hs (g t T)))"
    by (rule fold_additive_cong[OF gs]) (rule additive_past_fold[OF g assms(2)])
  also have "\<dots> = rows_without_ttl (fold (\<lambda>h. h s') hs (fold (\<lambda>g. g t') gs (g t' T')))"
    by (rule Cons.IH[OF gs]) (rule additive_cong[OF g Cons.prems(2)])
  finally show ?case by simp
qed

lemma additiveI1: "(\<And>ttl T. g ttl T = try_update_item T key ttl ex) \<Longrightarrow> additive g"
proof -
  assume "\<And>ttl T. g ttl T = try_update_item T key ttl ex"
  then have "g = (\<lambda>ttl T. try_update_item T key ttl ex)" by (intro ext) simp
  then show ?thesis unfolding additive_def by blast
qed

lemma additiveI2: "(\<And>ttl T. g ttl T = T) \<Longrightarrow> additive g"
proof -
  assume "\<And>ttl T. g ttl T = T"
  then have "g = (\<lambda>ttl T. T)" by (intro ext) simp
  then show ?thesis unfolding additive_def by blast
qed

lemma additive_update_daily: "additive (\<lambda>ttl. update_daily ttl entry)"
proof -
  obtain key req ips where e: "entry = (key, req, ips)" by (cases entry) auto
  show ?thesis
  proof (cases "\<exists>d dt. split_max (CHR ''#'') 1 key = [d, dt]")
    case True
    then obtain d dt where sp: "split_max (CHR ''#'') 1 key = [d, dt]" by blast
    show ?thesis
      by (rule additiveI1[of _ "(''ROLLUP#'' @ d, ''STATS#'' @ dt)"
            "if ips \<noteq> {} then AddRequestsIps req ips else AddRequests req"])
         (use sp in \<open>simp add: update_daily_def e\<close>)
  next
    case False
    then have "\<And>ttl T. update_daily ttl entry T = T"
      by (auto simp: update_daily_def e split: list.splits)
    then show ?thesis by (rule additiveI2)
  qed
qed

lemma additive_update_count: "additive (\<lambda>ttl. update_count prefix ttl entry)"
proof -
  obtain key c where e: "entry = (key, c)" by (cases entry) auto
  show ?thesis
  proof (cases "\<exists>d dt rest. split_max (CHR ''#'') 2 key = [d, dt, rest]")
    case True
    then obtain d dt rest where sp: "split_max (CHR ''#'') 2 key = [d, dt, rest]" by blast
    show ?thesis
      by (rule additiveI1[of _ "(''ROLLUP#'' @ d, prefix @ dt @ ''#'' @ rest)" "AddCount c"])
         (use sp in \<open>simp add: update_count_def e\<close>)
  next
    case False
    then have "\<And>ttl T. update_count prefix ttl entry T = T"
      by (auto simp: update_count_def e split: list.splits)
    then show ?thesis by (rule additiveI2)
  qed
qed

lemma additive_rollup_steps: "\<forall>g \<in> set (rollup_steps items). additive g"
  by (auto simp: rollup_steps_def Let_def additive_update_daily additive_update_count)

lemma fold_map_step: "fold (\<lambda>g. g t) (map (\<lambda>entry ttl. f ttl entry) xs) T = fold (f t) xs T"
  by (induction xs arbitrary: T) simp_all

lemma update_rollups_steps:
  "tbl (update_rollups clock items st)
     = fold (\<lambda>g. g (ttl_from (clock (reads st)))) (rollup_steps items) (tbl st)"
proof (cases "items = []")
  case True
  then show ?thesis
    by (simp add: update_rollups_def rollup_steps_def no_rollups_def)
next
  case False
  then show ?thesis
    by (simp add: update_rollups_def rollup_steps_def Let_def fold_map_step)
qed

text \<open>
  The rollup writer on two events of one day, from an empty table: the daily row counts
  both and holds both addresses, the hour, referrer and page rows count one each.
\<close>

lemma rollup_scenario:
  "tbl (update_rollups (\<lambda>n. 1705320000) [sample_event, sample_event2] empty_store)
     (''ROLLUP#myfantasy.ai'', ''STATS#2024-01-15'')
     = Some [''PK'' \<mapsto> Str ''ROLLUP#myfantasy.ai'', ''SK'' \<mapsto> Str ''STATS#2024-01-15'',
             ''ttl'' \<mapsto> Num 1713096000, ''requests'' \<mapsto> Num 2,
             ''unique_ips'' \<mapsto> StrSet {''1.2.3.4'', ''5.6.7.8''}]"
  "tbl (update_rollups (\<lambda>n. 1705320000) [sample_event, sample_event2] empty_store)
     (''ROLLUP#myfantasy.ai'', ''HOUR#2024-01-15#13'')
     = Some [''PK'' \<mapsto> Str ''ROLLUP#myfantasy.ai'', ''SK'' \<mapsto> Str ''HOUR#2024-01-15#13'',
             ''ttl'' \<mapsto> Num 1713096000, ''count'' \<mapsto> Num 1]"
  "tbl (update_rollups (\<lambda>n. 1705320000) [sample_event, sample_event2] empty_store)
     (''ROLLUP#myfantasy.ai'', ''REF#2024-01-15#google.com'')
     = Some [''PK'' \<mapsto> Str ''ROLLUP#myfantasy.ai'', ''SK'' \<mapsto> Str ''REF#2024-01-15#google.com'',
             ''ttl'' \<mapsto> Num 1713096000, ''count'' \<mapsto> Num 1]"
  "tbl (update_rollups (\<lambda>n. 1705320000) [sample_event, sample_event2] empty_store)
     (''ROLLUP#myfantasy.ai'', ''PAGE#2024-01-15#/about'')
     = Some [''PK'' \<mapsto> Str ''ROLLUP#myfantasy.ai'', ''SK'' \<mapsto> Str ''PAGE#2024-01-15#/about'',
             ''ttl'' \<mapsto> Num 1713096000, ''count'' \<mapsto> Num 1]"
  by (simp_all add: update_rollups_def aggregate_def sample_event_def sample_event2_def
      no_rollups_def hour_of_def slice_def Let_def update_daily_def update_count_def
      try_update_item_eq updated_row_def apply_update_def row_at_def fresh_row_def
      num_ok_def set_ok_def add_num_def add_set_def empty_store_def ttl_from_def TTL_DAYS_def
      eval_nat_numeral insert_commute)

text \<open>
  Claim C5. Running the rollup writer on \<open>A\<close> and then on \<open>B\<close>, or on \<open>B\<close> and then on
  \<open>A\<close>, from the same table, leaves tables with the same keys whose rows agree on every
  attribute other than \<open>ttl\<close>: the daily \<open>requests\<close>, the \<open>unique_ips\<close> set and the page,
  referrer and hourly \<open>count\<close>s are identical. It holds for any two lists of events and
  any two clocks, so in particular for disjoint multisets over one (domain, date).
\<close>

theorem rollup_commutative:
  "rows_without_ttl (tbl (update_rollups clock B (update_rollups clock A st)))
     = rows_without_ttl (tbl (update_rollups clock' A (update_rollups clock' B st)))"
  unfolding update_rollups_steps
  by (rule fold_additive_commute) (simp_all add: additive_rollup_steps)

subsection \<open>The hour of the hourly key\<close>






subsection \<open>The ingestion controller\<close>

lemma scan_line_step:
  "parse_cloudfront_log_line lib l = None \<Longrightarrow>
     scan_line lib cfg d l (items, sk, tp) = (items, sk, tp)"
  "parse_cloudfront_log_line lib l = Some ev \<Longrightarrow> should_exclude_path lib cfg (path ev) \<Longrightarrow>
     scan_line lib cfg d l (items, sk, tp) = (items, sk + 1, tp)"
  "parse_cloudfront_log_line lib l = Some ev \<Longrightarrow> \<not> should_exclude_path lib cfg (path ev) \<Longrightarrow>
     scan_line lib cfg d l (items, sk, tp) = (items @ [ev\<lparr>domain := d\<rparr>], sk, tp + 1)"
  by (simp_all add: scan_line_def)

lemma fold_scan_line:
  "fold (scan_line lib cfg d) ls (items, sk, tp) = (items', sk', tp') \<Longrightarrow>
     items' = items @ map (\<lambda>ev. ev\<lparr>domain := d\<rparr>)
                (filter (\<lambda>ev. \<not> should_exclude_path lib cfg (path ev))
                   (List.map_filter (parse_cloudfront_log_line lib) ls))
   \<and> tp' = tp + length (filter (\<lambda>ev. \<not> should_exclude_path lib cfg (path ev))
                   (List.map_filter (parse_cloudfront_log_line lib) ls))"
proof (induction ls arbitrary: items sk tp)
  case Nil
  then show ?case by (simp add: map_filter_simps)
next
  case (Cons l ls)
  show ?case
  proof (cases "parse_cloudfront_log_line lib l")
    case None
    then have "fold (scan_line lib cfg d) ls (items, sk, tp) = (items', sk', tp')"
      using Cons.prems by (simp add: scan_line_step(1)[OF None])
    from Cons.IH[OF this] None show ?thesis by (simp add: map_filter_simps)
  next
    case (Some ev)
    show ?thesis
    proof (cases "should_exclude_path lib cfg (path ev)")
      case True
      then have "fold (scan_line lib cfg d) ls (items, sk + 1, tp) = (items', sk', tp')"
        using Cons.prems by (simp add: scan_line_step(2)[OF Some True])
      from Cons.IH[OF this] Some True show ?thesis by (simp add: map_filter_simps)
    next
      case False
      then have "fold (scan_line lib cfg d) ls (items @ [ev\<lparr>domain := d\<rparr>], sk, tp + 1)
                   = (items', sk', tp')"
        using Cons.prems by (simp add: scan_line_step(3)[OF Some False])
      from Cons.IH[OF this] Some False show ?thesis by (simp add: map_filter_simps)
    qed
  qed
qed

lemma process_record_totals:
  assumes "process_record lib cfg s3 clock rec r = Inr r'"
  shows "total_processed r' = total_processed r + length (record_events lib cfg s3 rec)"
    and "total_written r' = total_written r + length (record_events lib cfg s3 rec)"
proof -
  obtain content where c: "s3 (bucket_name rec) (object_key rec) = Some content"
    using assms by (auto simp: process_record_def split: option.splits)
  show "total_processed r' = total_processed r + length (record_events lib cfg s3 rec)"
    and "total_written r' = total_written r + length (record_events lib cfg s3 rec)"
  proof (atomize (full), cases "extract_domain_from_s3_key (object_key rec)")
    case None
    then show "total_processed r' = total_processed r + length (record_events lib cfg s3 rec)
        \<and> total_written r' = total_written r + length (record_events lib cfg s3 rec)"
      using assms c by (auto simp: process_record_def record_events_def)
  next
    case (Some d)
    show "total_processed r' = total_processed r + length (record_events lib cfg s3 rec)
        \<and> total_written r' = total_written r + length (record_events lib cfg s3 rec)"
    proof (cases "d = []")
      case True
      then show ?thesis
        using assms c Some by (auto simp: process_record_def record_events_def)
    next
      case False
      obtain items sk tp where f:
        "fold (scan_line lib cfg d) (split (CHR 0x0A) content) ([], 0, total_processed r)
           = (items, sk, tp)"
        by (metis prod_cases3)
      have items: "items = record_events lib cfg s3 rec"
        and tp: "tp = total_processed r + length (record_events lib cfg s3 rec)"
        using fold_scan_line[OF f] c Some False
        by (simp_all add: record_events_def kept_events_def)
      show ?thesis
      proof (cases "items = []")
        case True
        then show ?thesis
          using assms c Some False f items tp by (auto simp: process_record_def)
      next
        case ne: False
        obtain st1 w where bw: "batch_write_to_dynamodb clock items (store_of r) = (st1, w)"
          by (metis surj_pair)
        have "w = length items"
          using batch_write_count[of clock items "store_of r"] bw by simp
        then show ?thesis
          using assms c Some False f items tp ne bw by (auto simp: process_record_def)
      qed
    qed
  qed
qed

lemma process_records_totals:
  "process_records lib cfg s3 clock recs r = Inr r' \<Longrightarrow>
     total_processed r' = total_processed r + length (concat (map (record_events lib cfg s3) recs))
   \<and> total_written r' = total_written r + length (concat (map (record_events lib cfg s3) recs))"
proof (induction recs arbitrary: r)
  case Nil
  then show ?case by simp
next
  case (Cons rec recs)
  then obtain r1 where r1: "process_record lib cfg s3 clock rec r = Inr r1"
    and rest: "process_records lib cfg s3 clock recs r1 = Inr r'"
    by (auto split: sum.splits)
  from Cons.IH[OF rest] process_record_totals[OF r1] show ?case by simp
qed

text \<open>
  Claim C10. When an invocation of the log parser returns (it does not raise), the
  response has status 200 and its \<open>processed\<close> and \<open>written\<close> counts are equal: both are
  the number of parsed, non-excluded events of the records, each counted once.
\<close>

theorem processed_equals_written:
  assumes "lambda_handler lib cfg s3 clock records st0 = Inr (resp, st')"
  shows "processed resp = written resp
       \<and> processed resp = length (concat (map (record_events lib cfg s3) records))
       \<and> status_code resp = 200"
proof -
  obtain r where r: "process_records lib cfg s3 clock records
           \<lparr> total_processed = 0, total_written = 0, store_of = st0 \<rparr> = Inr r"
    and resp: "resp = \<lparr> status_code = 200, message = ''Success'',
                         processed = total_processed r, written = total_written r \<rparr>"
    using assms by (auto simp: lambda_handler_def split: sum.splits)
  from process_records_totals[OF r] resp show ?thesis by simp
qed

text \<open>The handler raises only when a read fails: it returns when every object can be read.\<close>

lemma process_record_returns:
  assumes "s3 (bucket_name rec) (object_key rec) \<noteq> None"
  shows "\<exists>r'. process_record lib cfg s3 clock rec r = Inr r'"
  using assms by (auto simp: process_record_def split: option.splits prod.splits)

lemma process_records_returns:
  assumes "\<forall>rec \<in> set recs. s3 (bucket_name rec) (object_key rec) \<noteq> None"
  shows "\<exists>r'. process_records lib cfg s3 clock recs r = Inr r'"
  using assms
proof (induction recs arbitrary: r)
  case Nil
  then show ?case by simp
next
  case (Cons rec recs)
  then obtain r1 where "process_record lib cfg s3 clock rec r = Inr r1"
    using process_record_returns[of s3 rec lib cfg clock r] by auto
  then show ?case using Cons by simp
qed

lemma lambda_handler_returns:
  assumes "\<forall>rec \<in> set records. s3 (bucket_name rec) (object_key rec) \<noteq> None"
  shows "\<exists>out. lambda_handler lib cfg s3 clock records st0 = Inr out"
proof -
  obtain r where "process_records lib cfg s3 clock records
           \<lparr> total_processed = 0, total_written = 0, store_of = st0 \<rparr> = Inr r"
    using process_records_returns[OF assms] by blast
  then show ?thesis by (simp add: lambda_handler_def)
qed

lemma sample_lines:
  "split (CHR 0x0A) (''#Version: 1.0'' @ [CHR 0x0A]
                 @ tabbed (sample_fields ''2024-01-15'' ''12:00:00'' ''d111.cloudfront.net''
                             ''-'' ''-'' ''r1'') @ [CHR 0x0A])
   = [''#Version: 1.0'', tabbed (sample_fields ''2024-01-15'' ''12:00:00'' ''d111.cloudfront.net''
                             ''-'' ''-'' ''r1''), '''']"
  by (simp add: sample_fields_def)

lemma sample_record_events:
  "record_events simple_lib sample_cfg sample_s3 sample_record =
     [\<lparr> domain = ''myfantasy.ai'', timestamp = ''2024-01-15T12:00:00Z'',
              date = ''2024-01-15'', path = ''/'', status = ''200'',
              referrer = None, referrer_domain = None, user_agent = None,
              client_ip = ''1.2.3.4'', request_id = ''r1'' \<rparr>]"
  unfolding record_events_def kept_events_def sample_s3_def sample_record_def
  apply (simp add: sample_lines extract_domain_from_s3_key_def del: split.simps)
  apply (simp add: map_filter_simps sample_simps should_exclude_path_def sample_cfg_def endswith_def)
  done

theorem processed_equals_written_witness:
  "map_sum id (\<lambda>out. (status_code (fst out), processed (fst out), written (fst out)))
     (lambda_handler simple_lib sample_cfg sample_s3 (\<lambda>n. 1705320000) [sample_record] empty_store)
     = Inr (200, 1, 1)"
proof -
  have "\<forall>rec \<in> set [sample_record]. sample_s3 (bucket_name rec) (object_key rec) \<noteq> None"
    by (simp add: sample_record_def sample_s3_def)
  then obtain out where
    out: "lambda_handler simple_lib sample_cfg sample_s3 (\<lambda>n. 1705320000) [sample_record] empty_store
            = Inr out"
    using lambda_handler_returns by blast
  obtain resp st' where pair: "out = (resp, st')" by (cases out)
  have "processed resp = written resp
       \<and> processed resp = length (concat (map (record_events simple_lib sample_cfg sample_s3) [sample_record]))
       \<and> status_code resp = 200"
    using processed_equals_written[of simple_lib sample_cfg sample_s3 "\<lambda>n. 1705320000"
            "[sample_record]" empty_store resp st'] out pair by simp
  then show ?thesis using out pair by (simp add: sample_record_events)
qed

section \<open>Properties of the journey tracker\<close>

subsection \<open>Validation and item construction\<close>



lemma slice10_error: "slice10 v = Inl e \<Longrightarrow> e = TypeError"
  by (cases v) (auto simp: slice10_def)








subsection \<open>Writing a batch\<close>










subsection \<open>Routing\<close>








end
